theory Spec2Isabelle
  imports Main "HOL-Library.Sublist" "HOL-Library.Char_ord" "HOL-Library.List_Lexorder"
    "HOL-Library.Multiset"
begin

section \<open>Formatting helpers\<close>

text \<open>
  Go strings are byte sequences; they are modelled as \<open>string\<close> (lists of 8-bit characters).
  \<open>fmt_d\<close> is what \<^verbatim>\<open>fmt.Sprintf("%d", i)\<close> prints for an integer.
\<close>

definition digit_char :: "nat \<Rightarrow> char" where
  "digit_char n = ''0123456789'' ! (n mod 10)"

function string_of_nat :: "nat \<Rightarrow> string" where
  "string_of_nat n =
     (if n < 10 then [digit_char n] else string_of_nat (n div 10) @ [digit_char (n mod 10)])"
  by pat_completeness auto
termination
  by (relation "measure (\<lambda>n. n)") auto

definition fmt_d :: "int \<Rightarrow> string" where
  "fmt_d i = (if i < 0 then CHR ''-'' # string_of_nat (nat (- i)) else string_of_nat (nat i))"

section \<open>Go's strings package\<close>

text \<open>
  The functions of package \<^verbatim>\<open>strings\<close> that the code below calls, on byte strings.
  \<^verbatim>\<open>strings.ToUpper\<close>, \<^verbatim>\<open>strings.ToLower\<close> and \<^verbatim>\<open>runtime.GOOS\<close> depend on Unicode
  tables and on the build target; they are taken as given in the record \<open>golang\<close>, and so
  are \<^verbatim>\<open>url.Parse\<close> and the method \<^verbatim>\<open>String\<close> of package \<^verbatim>\<open>net/url\<close> (an error is its
  message; the field \<open>User\<close> of a \<open>URL\<close> is \<^verbatim>\<open>User.String()\<close> when \<^verbatim>\<open>User\<close> is non-nil).
\<close>

record URL =
  Scheme :: string
  User :: "string option"
  Host :: string
  Path :: string
  RawQuery :: string
  Fragment :: string

record golang =
  GOOS :: string
  ToUpper :: "string \<Rightarrow> string"
  ToLower :: "string \<Rightarrow> string"
  url_Parse :: "string \<Rightarrow> string + URL"
  url_String :: "URL \<Rightarrow> string"

definition HasPrefix :: "string \<Rightarrow> string \<Rightarrow> bool" where
  "HasPrefix s p = (take (length p) s = p)"

definition HasSuffix :: "string \<Rightarrow> string \<Rightarrow> bool" where
  "HasSuffix s p = (length p \<le> length s \<and> drop (length s - length p) s = p)"

text \<open>
  The UTF-8 encodings of the code points for which \<^verbatim>\<open>unicode.IsSpace\<close> holds: U+0009 to
  U+000D, U+0020, U+0085, U+00A0, U+1680, U+2000 to U+200A, U+2028, U+2029, U+202F, U+205F
  and U+3000.
\<close>

definition space_runes :: "string list" where
  "space_runes =
     [[CHR 0x09], [CHR 0x0A], [CHR 0x0B], [CHR 0x0C], [CHR 0x0D], [CHR 0x20],
      [CHR 0xC2, CHR 0x85], [CHR 0xC2, CHR 0xA0], [CHR 0xE1, CHR 0x9A, CHR 0x80],
      [CHR 0xE2, CHR 0x80, CHR 0x80], [CHR 0xE2, CHR 0x80, CHR 0x81],
      [CHR 0xE2, CHR 0x80, CHR 0x82], [CHR 0xE2, CHR 0x80, CHR 0x83],
      [CHR 0xE2, CHR 0x80, CHR 0x84], [CHR 0xE2, CHR 0x80, CHR 0x85],
      [CHR 0xE2, CHR 0x80, CHR 0x86], [CHR 0xE2, CHR 0x80, CHR 0x87],
      [CHR 0xE2, CHR 0x80, CHR 0x88], [CHR 0xE2, CHR 0x80, CHR 0x89],
      [CHR 0xE2, CHR 0x80, CHR 0x8A], [CHR 0xE2, CHR 0x80, CHR 0xA8],
      [CHR 0xE2, CHR 0x80, CHR 0xA9], [CHR 0xE2, CHR 0x80, CHR 0xAF],
      [CHR 0xE2, CHR 0x81, CHR 0x9F], [CHR 0xE3, CHR 0x80, CHR 0x80]]"

text \<open>
  The number of bytes of the rune of \<open>runes\<close> that \<open>s\<close> starts with, 0 when it starts with
  none of them.
\<close>

definition rune_width :: "string list \<Rightarrow> string \<Rightarrow> nat" where
  "rune_width runes s = (case filter (HasPrefix s) runes of [] \<Rightarrow> 0 | r # _ \<Rightarrow> length r)"

fun trim_left_runes :: "string list \<Rightarrow> string \<Rightarrow> string" where
  "trim_left_runes runes [] = []"
| "trim_left_runes runes (c # cs) =
     (if rune_width runes (c # cs) = 0 then c # cs
      else trim_left_runes runes (drop (rune_width runes (c # cs) - 1) cs))"

text \<open>
  \<^verbatim>\<open>strings.TrimSpace\<close>: the leading white space runes are cut first, then the trailing
  ones (found from the end of the string, so on the reversed string with reversed
  encodings).
\<close>

definition TrimSpace :: "string \<Rightarrow> string" where
  "TrimSpace s =
     rev (trim_left_runes (map rev space_runes) (rev (trim_left_runes space_runes s)))"

text \<open>\<^verbatim>\<open>strings.Trim(s, cutset)\<close> for a cutset of ASCII bytes.\<close>

definition Trim :: "string \<Rightarrow> string \<Rightarrow> string" where
  "Trim s cutset =
     rev (dropWhile (\<lambda>c. c \<in> set cutset) (rev (dropWhile (\<lambda>c. c \<in> set cutset) s)))"

text \<open>
  \<^verbatim>\<open>strings.Replace(s, old, new, -1)\<close> for a non-empty \<open>old\<close>: every non-overlapping
  occurrence, from the left. (The code never passes an empty \<open>old\<close>, which is left as it is
  here.)
\<close>

fun Replace :: "string \<Rightarrow> string \<Rightarrow> string \<Rightarrow> string" where
  "Replace [] old new = []"
| "Replace (c # cs) old new =
     (if old \<noteq> [] \<and> HasPrefix (c # cs) old
      then new @ Replace (drop (length old - 1) cs) old new
      else c # Replace cs old new)"

text \<open>\<^verbatim>\<open>strings.Split(s, sep)\<close> for a separator of one byte.\<close>

fun Split :: "string \<Rightarrow> char \<Rightarrow> string list" where
  "Split [] sep = [[]]"
| "Split (c # cs) sep =
     (if c = sep then [] # Split cs sep
      else (case Split cs sep of [] \<Rightarrow> [[c]] | part # parts \<Rightarrow> (c # part) # parts))"

text \<open>\<^verbatim>\<open>strings.Join(elems, sep)\<close>.\<close>

fun Join :: "string list \<Rightarrow> string \<Rightarrow> string" where
  "Join [] sep = []"
| "Join [x] sep = x"
| "Join (x # y # ys) sep = x @ sep @ Join (y # ys) sep"

section \<open>shell/environment.go: the environment map\<close>

text \<open>
  The \<^verbatim>\<open>env\<close> field of an \<^verbatim>\<open>Environment\<close> is a Go map from string to string. A
  \<^verbatim>\<open>range\<close> over a Go map visits the keys in an order the runtime chooses; the functions
  that range over a map take that order as their argument \<open>order\<close>, a list of the keys.
\<close>

type_synonym Environment = "string \<rightharpoonup> string"

definition letters :: string where
  "letters = ''abcdefghijklmnopqrstuvwxyzABCDEFGHIJKLMNOPQRSTUVWXYZ''"

definition digits :: string where
  "digits = ''0123456789''"

text \<open>
  \<^verbatim>\<open>EnvironmentVariableLineRegex.FindStringSubmatch(l)\<close> for the expression
  \<^verbatim>\<open>\A([a-zA-Z]+[a-zA-Z0-9_]*)=(.+)\z\<close>: \<open>Some (matches[1], matches[2])\<close> when the line matches,
  \<open>None\<close> when it does not. The first group admits no \<open>=\<close>, so it can only be the text
  before the first \<open>=\<close> of the line: a letter, then letters, digits and underscores. The
  second group is the rest of the line; \<open>.\<close> matches every character except the newline,
  so the rest must be non-empty and free of newlines.
\<close>

definition key_shape :: "string \<Rightarrow> bool" where
  "key_shape k =
     (k \<noteq> [] \<and> hd k \<in> set letters \<and> list_all (\<lambda>c. c \<in> set (letters @ digits @ ''_'')) k)"

definition FindStringSubmatch :: "string \<Rightarrow> (string \<times> string) option" where
  "FindStringSubmatch l =
     (let k = takeWhile (\<lambda>c. c \<noteq> CHR ''='') l;
          rest = dropWhile (\<lambda>c. c \<noteq> CHR ''='') l
      in if rest \<noteq> [] \<and> key_shape k \<and> tl rest \<noteq> [] \<and> CHR 0x0A \<notin> set (tl rest)
         then Some (k, tl rest) else None)"

definition Get :: "Environment \<Rightarrow> string \<Rightarrow> string" where
  "Get e key = (case e key of None \<Rightarrow> [] | Some v \<Rightarrow> v)"

definition Exists :: "Environment \<Rightarrow> string \<Rightarrow> bool" where
  "Exists e key = (e key \<noteq> None)"

definition quoted :: "string \<Rightarrow> bool" where
  "quoted v =
     ((HasPrefix v [CHR 0x22] \<and> HasSuffix v [CHR 0x22])
      \<or> (HasPrefix v [CHR 0x27] \<and> HasSuffix v [CHR 0x27]))"

text \<open>The value that \<^verbatim>\<open>Set\<close> stores and returns for the value it is given.\<close>

definition set_value :: "string \<Rightarrow> string" where
  "set_value value =
     (let v = TrimSpace value
      in if quoted v
         then Replace (Replace (Trim v [CHR 0x22, CHR 0x27]) [CHR 0x5C, CHR 0x22] [CHR 0x22])
                [CHR 0x5C, CHR ''n''] [CHR 0x0A]
         else v)"

text \<open>The key under which \<^verbatim>\<open>Set\<close> stores.\<close>

definition set_key :: "golang \<Rightarrow> string \<Rightarrow> string" where
  "set_key G key =
     (let k = TrimSpace key in if GOOS G = ''windows'' then ToUpper G k else k)"

text \<open>\<^verbatim>\<open>Set\<close> returns the stored value and the updated environment.\<close>

definition Set :: "golang \<Rightarrow> string \<Rightarrow> string \<Rightarrow> Environment \<Rightarrow> string \<times> Environment" where
  "Set G key value e = (set_value value, e(set_key G key \<mapsto> set_value value))"

definition Remove :: "string \<Rightarrow> Environment \<Rightarrow> string \<times> Environment" where
  "Remove key e = (Get e key, e(key := None))"

text \<open>
  The loop of \<^verbatim>\<open>EnvironmentFromSlice\<close>; its state is the environment,
  \<^verbatim>\<open>currentKeyName\<close> and \<^verbatim>\<open>currentValueSlice\<close>.
\<close>

fun scan_lines ::
  "golang \<Rightarrow> string list \<Rightarrow> Environment \<times> string \<times> string list
     \<Rightarrow> Environment \<times> string \<times> string list"
where
  "scan_lines G [] st = st"
| "scan_lines G (l # s) (env, currentKeyName, currentValueSlice) =
     (case FindStringSubmatch l of
        Some (m1, m2) \<Rightarrow>
          (if currentKeyName \<noteq> [] \<and> currentValueSlice \<noteq> []
           then scan_lines G s
                  (snd (Set G currentKeyName (Join currentValueSlice [CHR 0x0A]) env), m1, [m2])
           else scan_lines G s (env, m1, currentValueSlice @ [m2]))
      | None \<Rightarrow>
          (if currentKeyName \<noteq> []
           then scan_lines G s (env, currentKeyName, currentValueSlice @ [l])
           else scan_lines G s (env, currentKeyName, currentValueSlice)))"

text \<open>The statements of \<^verbatim>\<open>EnvironmentFromSlice\<close> after its loop, on the loop's final state.\<close>

definition flush :: "golang \<Rightarrow> Environment \<times> string \<times> string list \<Rightarrow> Environment" where
  "flush G st =
     (case st of (env, currentKeyName, currentValueSlice) \<Rightarrow>
        if currentKeyName \<noteq> [] \<and> currentValueSlice \<noteq> []
        then snd (Set G currentKeyName (Join currentValueSlice [CHR 0x0A]) env)
        else env)"

definition EnvironmentFromSlice :: "golang \<Rightarrow> string list \<Rightarrow> Environment" where
  "EnvironmentFromSlice G s = flush G (scan_lines G s (Map.empty, [], []))"




text \<open>\<^verbatim>\<open>ToSlice\<close>: one \<open>KEY=VALUE\<close> string per entry, sorted as byte strings.\<close>

definition ToSlice :: "string list \<Rightarrow> Environment \<Rightarrow> string list" where
  "ToSlice order e = sort (map (\<lambda>k. k @ ''='' @ Get e k) order)"

text \<open>An order in which a \<^verbatim>\<open>range\<close> can visit the keys of \<open>e\<close>.\<close>

definition range_order :: "string list \<Rightarrow> Environment \<Rightarrow> bool" where
  "range_order order e = (distinct order \<and> set order = dom e)"

text \<open>
  The entries that \<^verbatim>\<open>ToSlice\<close> followed by \<^verbatim>\<open>EnvironmentFromSlice\<close> brings back: the key is
  an identifier that the line expression accepts (and, on Windows, is its own upper case),
  the value is not empty, has no newline and is a value that \<^verbatim>\<open>Set\<close> stores as it is.
\<close>

definition plain_entry :: "golang \<Rightarrow> string \<times> string \<Rightarrow> bool" where
  "plain_entry G p =
     (key_shape (fst p) \<and> snd p \<noteq> [] \<and> CHR 0x0A \<notin> set (snd p) \<and> set_value (snd p) = snd p
      \<and> (GOOS G = ''windows'' \<longrightarrow> ToUpper G (fst p) = fst p))"

text \<open>The line \<^verbatim>\<open>fmt.Sprintf("%v=%v", k, v)\<close> of an entry.\<close>

definition line_of :: "string \<times> string \<Rightarrow> string" where
  "line_of p = fst p @ ''='' @ snd p"

text \<open>The map assignment \<^verbatim>\<open>e.env[key] = value\<close> for an entry.\<close>

definition store :: "string \<times> string \<Rightarrow> Environment \<Rightarrow> Environment" where
  "store p m = m(fst p \<mapsto> snd p)"

text \<open>The two escape sequences that \<^verbatim>\<open>Set\<close> expands in a quoted value.\<close>

definition expand_escapes :: "string \<Rightarrow> string" where
  "expand_escapes v =
     Replace (Replace v [CHR 0x5C, CHR 0x22] [CHR 0x22]) [CHR 0x5C, CHR ''n''] [CHR 0x0A]"



text \<open>The keys of \<open>e\<close> are keys as \<^verbatim>\<open>Set\<close> stores them.\<close>

definition stored_keys :: "golang \<Rightarrow> Environment \<Rightarrow> bool" where
  "stored_keys G e = (\<forall>k\<in>dom e. set_key G k = k)"

definition word_char :: "char \<Rightarrow> bool" where
  "word_char c = (c \<in> set (letters @ digits @ ''_''))"

text \<open>
  Two instances of the Go side for evaluating examples: \<^verbatim>\<open>strings.ToUpper\<close> and
  \<^verbatim>\<open>strings.ToLower\<close> as they act on ASCII strings, on Linux and on Windows.
\<close>

definition ascii_upper :: "char \<Rightarrow> char" where
  "ascii_upper c =
     (case map_of (zip ''abcdefghijklmnopqrstuvwxyz'' ''ABCDEFGHIJKLMNOPQRSTUVWXYZ'') c of
        None \<Rightarrow> c | Some u \<Rightarrow> u)"

definition ascii_lower :: "char \<Rightarrow> char" where
  "ascii_lower c =
     (case map_of (zip ''ABCDEFGHIJKLMNOPQRSTUVWXYZ'' ''abcdefghijklmnopqrstuvwxyz'') c of
        None \<Rightarrow> c | Some l \<Rightarrow> l)"


text \<open>
  For the examples, \<^verbatim>\<open>url.Parse\<close> and \<^verbatim>\<open>String\<close> on the URLs of the plain shape
  \<open>scheme://host/path#fragment\<close>, with lower-case scheme and without user, port, query or
  escapes.
\<close>

definition plain_url_Parse :: "string \<Rightarrow> string + URL" where
  "plain_url_Parse s =
     (let body = takeWhile (\<lambda>c. c \<noteq> CHR ''#'') s;
          frag = drop (Suc (length body)) s;
          scheme = takeWhile (\<lambda>c. c \<noteq> CHR '':'') body;
          rest = drop (length scheme) body
      in if HasPrefix rest ''://''
         then Inr \<lparr>Scheme = scheme, User = None,
                   Host = takeWhile (\<lambda>c. c \<noteq> CHR ''/'') (drop 3 rest),
                   Path = dropWhile (\<lambda>c. c \<noteq> CHR ''/'') (drop 3 rest),
                   RawQuery = [], Fragment = frag\<rparr>
         else Inr \<lparr>Scheme = [], User = None, Host = [], Path = body, RawQuery = [],
                   Fragment = frag\<rparr>)"

definition plain_url_String :: "URL \<Rightarrow> string" where
  "plain_url_String u =
     (if Scheme u = [] then [] else Scheme u @ '':'')
     @ (if Scheme u \<noteq> [] \<or> Host u \<noteq> [] then ''//'' @ Host u else [])
     @ Path u
     @ (if Fragment u = [] then [] else ''#'' @ Fragment u)"

definition linux :: golang where
  "linux = \<lparr>GOOS = ''linux'', ToUpper = map ascii_upper, ToLower = map ascii_lower,
             url_Parse = plain_url_Parse, url_String = plain_url_String\<rparr>"

definition windows :: golang where
  "windows = \<lparr>GOOS = ''windows'', ToUpper = map ascii_upper, ToLower = map ascii_lower,
               url_Parse = plain_url_Parse, url_String = plain_url_String\<rparr>"

section \<open>agent/header_times_streamer.go: uploading header times\<close>

text \<open>
  The fields of the streamer that \<^verbatim>\<open>Upload\<close> reads and writes (\<open>times'\<close> is the field
  \<^verbatim>\<open>times\<close>). \<open>uploadWaitGroup\<close> is the counter of the wait group.
\<close>

record headerTimesStreamer =
  times' :: "string list"
  uploadWaitGroup :: int
  streaming :: bool
  cursor :: nat

text \<open>
  How a call of \<^verbatim>\<open>uploadCallback\<close> ends. Its type is
  \<^verbatim>\<open>func(context.Context, int, int, map[string]string)\<close>: it has no result, so when it
  returns \<^verbatim>\<open>Upload\<close> has no way to tell whether the times reached the server
  (\<open>Acknowledged\<close>) or not (\<open>Failed\<close>); it can also panic.
\<close>

datatype callback_end = Acknowledged | Failed | Panicked

datatype upload_end = Returned | SliceBoundsPanic | CallbackPanic | NegativeWaitGroupPanic

type_synonym upload_call = "nat \<times> nat \<times> (string \<rightharpoonup> string)"

text \<open>The payload: \<^verbatim>\<open>payload[strconv.Itoa(h.cursor+index)] = time\<close> for every pending time.\<close>

definition payload_of :: "nat \<Rightarrow> string list \<Rightarrow> (string \<rightharpoonup> string)" where
  "payload_of c ts =
     fold (\<lambda>index payload. payload(fmt_d (int (c + index)) \<mapsto> ts ! index)) [0..<length ts]
       Map.empty"

text \<open>
  \<^verbatim>\<open>Upload\<close> returns the streamer as it leaves it, how it ends, and the calls of the
  callback it made with their arguments (the context apart).
\<close>

definition Upload ::
  "(nat \<Rightarrow> nat \<Rightarrow> (string \<rightharpoonup> string) \<Rightarrow> callback_end) \<Rightarrow> headerTimesStreamer
     \<Rightarrow> headerTimesStreamer \<times> upload_end \<times> upload_call list"
where
  "Upload uploadCallback h =
     (let c = cursor h;
          len = length (times' h)
      in if len < c then (h, SliceBoundsPanic, [])
         else
           let ts = drop c (take len (times' h));
               payload = payload_of c ts;
               h1 = h\<lparr>cursor := len\<rparr>;
               timesToUpload = length ts
           in if timesToUpload = 0 then (h1, Returned, [])
              else
                (case uploadCallback c len payload of
                   Panicked \<Rightarrow> (h1, CallbackPanic, [(c, len, payload)])
                 | _ \<Rightarrow>
                    (let h2 = h1\<lparr>uploadWaitGroup := uploadWaitGroup h1 - int timesToUpload\<rparr>
                     in if uploadWaitGroup h2 < 0
                        then (h2, NegativeWaitGroupPanic, [(c, len, payload)])
                        else (h2, Returned, [(c, len, payload)]))))"

section \<open>process/process.go: the exit status of a child\<close>

text \<open>
  The error value that \<^verbatim>\<open>exec.Cmd.Wait\<close> hands to \<^verbatim>\<open>getExitStatus\<close>. A nil error is
  \<open>None\<close>. An \<^verbatim>\<open>*exec.ExitError\<close> carries the value of its \<^verbatim>\<open>Sys()\<close> method, which is
  either a \<^verbatim>\<open>syscall.WaitStatus\<close> (represented by what its \<^verbatim>\<open>ExitStatus()\<close> method returns)
  or a value of some other type. Every other error is \<open>OtherError\<close>.
\<close>

datatype sys_value = WaitStatus int | OtherSys

datatype wait_error = ExitError sys_value | OtherError string

definition getExitStatus :: "wait_error option \<Rightarrow> string" where
  "getExitStatus waitResult =
     (let exitStatus =
        (case waitResult of
           Some err \<Rightarrow>
             (case err of
                ExitError sys \<Rightarrow> (case sys of WaitStatus s \<Rightarrow> s | OtherSys \<Rightarrow> - 1)
              | OtherError _ \<Rightarrow> - 1)
         | None \<Rightarrow> 0)
      in fmt_d exitStatus)"

section \<open>process/process.go: running a child\<close>

text \<open>
  \<open>has_Handler\<close> tells whether the \<^verbatim>\<open>Handler\<close> of the configuration is non-nil.
\<close>

record ProcessConfig =
  PTY :: bool
  Timestamp :: bool
  Script :: "string list"
  Env :: "string list"
  has_Handler :: bool

text \<open>A channel that has been made is open or closed; a nil channel field is \<open>None\<close>.\<close>

datatype chan = Open | Closed

text \<open>
  \<open>command\<close> tells whether the field \<^verbatim>\<open>command\<close> is non-nil; \<open>done'\<close> is the field
  \<^verbatim>\<open>done\<close>.
\<close>

record Process =
  Pid :: int
  ExitStatus :: string
  conf :: ProcessConfig
  command :: bool
  started :: "chan option"
  done' :: "chan option"

text \<open>
  What the operating system and the child do during one \<^verbatim>\<open>Start\<close>: the error of starting
  the child (\<^verbatim>\<open>StartPTY\<close> or \<^verbatim>\<open>command.Start\<close>), its pid, the error that
  \<^verbatim>\<open>command.Wait\<close> returns (\<open>None\<close> when the child never exits and \<^verbatim>\<open>Wait\<close> blocks for
  ever), and the time in nanoseconds, counted from the call of \<^verbatim>\<open>timeoutWait\<close>, after which
  the goroutines of the wait group have all finished (\<open>None\<close> when they never do).
\<close>

record child_run =
  start_error :: "string option"
  child_pid :: int
  wait_result :: "wait_error option option"
  drained :: "nat option"

text \<open>\<^verbatim>\<open>time.Second\<close>, in nanoseconds.\<close>

definition Second :: nat where
  "Second = 1000000000"

text \<open>
  \<^verbatim>\<open>timeoutWait\<close>: a goroutine sends on \<open>c\<close> once \<^verbatim>\<open>waitGroup.Wait()\<close> returns, and the
  \<^verbatim>\<open>select\<close> takes that case unless \<^verbatim>\<open>time.After(10 * time.Second)\<close> fires first. The
  result is the error returned (\<open>None\<close> is nil) and the time spent in the function.
\<close>

definition timeoutWait :: "nat option \<Rightarrow> string option \<times> nat" where
  "timeoutWait finished =
     (case finished of
        Some t \<Rightarrow> if t < 10 * Second then (None, t) else (Some ''Timeout'', 10 * Second)
      | None \<Rightarrow> (Some ''Timeout'', 10 * Second))"

datatype event =
    ChildStarted
  | CloseStarted
  | WaitReturned "wait_error option"
  | CloseLineWriter
  | CloseDone
  | SetExitStatus string
  | TimeoutWaitReturned "string option" nat

datatype start_panic = IndexOutOfRange | CloseOfClosedChannel

text \<open>
  How a call of \<^verbatim>\<open>Start\<close> ends: it returns an error (\<open>None\<close> is nil), it panics, or it
  blocks for ever.
\<close>

datatype start_end = Returns "string option" | Panics start_panic | Blocks

text \<open>\<^verbatim>\<open>if ch == nil { ch = make(chan struct{}) }\<close>.\<close>

definition make_if_nil :: "chan option \<Rightarrow> chan option" where
  "make_if_nil ch = (case ch of None \<Rightarrow> Some Open | Some c \<Rightarrow> Some c)"

definition Done :: "Process \<Rightarrow> chan option \<times> Process" where
  "Done p = (make_if_nil (done' p), p\<lparr>done' := make_if_nil (done' p)\<rparr>)"

text \<open>
  \<^verbatim>\<open>Start\<close> returns how it ends, the process as it leaves it and, in program order, the
  steps it took on the child, the channels and the exit status. The wait group holds the
  goroutine that copies the PTY and the goroutine that scans lines for the handler; without
  either it is empty and \<^verbatim>\<open>waitGroup.Wait()\<close> returns at once.
\<close>

definition Start :: "child_run \<Rightarrow> Process \<Rightarrow> start_end \<times> Process \<times> event list" where
  "Start os p =
     (if command p then (Returns (Some ''Process is already running''), p, [])
      else if Script (conf p) = [] then (Panics IndexOutOfRange, p, [])
      else
        let p1 = p\<lparr>command := True, started := make_if_nil (started p),
                   done' := make_if_nil (done' p)\<rparr>
        in case start_error os of
             Some err \<Rightarrow> (Returns (Some err), p1\<lparr>ExitStatus := ''1''\<rparr>, [SetExitStatus ''1''])
           | None \<Rightarrow>
              let p2 = p1\<lparr>Pid := child_pid os\<rparr>
              in if started p2 = Some Closed then (Panics CloseOfClosedChannel, p2, [ChildStarted])
                 else
                   let p3 = p2\<lparr>started := Some Closed\<rparr>
                   in case wait_result os of
                        None \<Rightarrow> (Blocks, p3, [ChildStarted, CloseStarted])
                      | Some waitResult \<Rightarrow>
                         if done' p3 = Some Closed
                         then (Panics CloseOfClosedChannel, p3,
                               [ChildStarted, CloseStarted, WaitReturned waitResult, CloseLineWriter])
                         else
                           let p4 = p3\<lparr>done' := Some Closed\<rparr>;
                               p5 = p4\<lparr>ExitStatus := getExitStatus waitResult\<rparr>;
                               finished = (if PTY (conf p) \<or> has_Handler (conf p)
                                           then drained os else Some 0);
                               (err, elapsed) = timeoutWait finished
                           in (Returns None, p5,
                               [ChildStarted, CloseStarted, WaitReturned waitResult,
                                CloseLineWriter, CloseDone,
                                SetExitStatus (getExitStatus waitResult),
                                TimeoutWaitReturned err elapsed]))"

text \<open>In the list of steps \<open>tr\<close>, the step \<open>a\<close> comes before the step \<open>b\<close>.\<close>

definition precedes :: "event \<Rightarrow> event \<Rightarrow> event list \<Rightarrow> bool" where
  "precedes a b tr = (\<exists>i j. i < j \<and> j < length tr \<and> tr ! i = a \<and> tr ! j = b)"

text \<open>A process on which \<^verbatim>\<open>Start\<close> has not run, with a script to run.\<close>

definition startable :: "Process \<Rightarrow> bool" where
  "startable p =
     (\<not> command p \<and> Script (conf p) \<noteq> [] \<and> started p \<noteq> Some Closed \<and> done' p \<noteq> Some Closed)"

text \<open>A process as \<^verbatim>\<open>NewProcess\<close> makes it, for a script under a PTY with a handler.\<close>

definition new_process :: Process where
  "new_process =
     \<lparr>Pid = 0, ExitStatus = [],
      conf = \<lparr>PTY = True, Timestamp = False, Script = [''/bin/sh'', ''-c'', ''true''], Env = [],
              has_Handler = True\<rparr>,
      command = False, started = None, done' = None\<rparr>"

section \<open>agent/plugin.go: plugins\<close>

text \<open>
  A decoded JSON value, as \<^verbatim>\<open>encoding/json\<close> with \<^verbatim>\<open>UseNumber\<close> produces it in an
  \<^verbatim>\<open>interface{}\<close>; \<open>JStrings\<close> is the Go type \<^verbatim>\<open>[]string\<close>, which
  \<^verbatim>\<open>ConfigurationToEnvironment\<close> also accepts.
\<close>

datatype jvalue =
    JString string
  | JBool bool
  | JNumber string
  | JStrings "string list"
  | JArray "jvalue list"
  | JObject "(string \<times> jvalue) list"
  | JNull

text \<open>\<open>Scheme'\<close> is the field \<^verbatim>\<open>Scheme\<close> of a plugin.\<close>

record Plugin =
  Location :: string
  Version :: string
  Scheme' :: string
  Authentication :: string
  Configuration :: "(string \<times> jvalue) list"

text \<open>
  A run-time panic of Go. Assigning to an entry of a nil map panics; reading from a nil map
  yields the zero value and \<^verbatim>\<open>ok = false\<close>.
\<close>

datatype panic = AssignmentToEntryInNilMap

text \<open>A Go map variable: \<open>None\<close> is the nil map of a \<^verbatim>\<open>var m map[K]V\<close> declaration.\<close>

type_synonym ('k, 'v) gomap = "('k \<rightharpoonup> 'v) option"

definition map_assign :: "('k, 'v) gomap \<Rightarrow> 'k \<Rightarrow> 'v \<Rightarrow> panic + ('k, 'v) gomap" where
  "map_assign m k v =
     (case m of None \<Rightarrow> Inl AssignmentToEntryInNilMap | Some f \<Rightarrow> Inr (Some (f(k \<mapsto> v))))"

definition map_exists :: "('k, 'v) gomap \<Rightarrow> 'k \<Rightarrow> bool" where
  "map_exists m k = (case m of None \<Rightarrow> False | Some f \<Rightarrow> f k \<noteq> None)"

text \<open>The first loop of \<^verbatim>\<open>MergePlugins\<close>, over the agent plugins.\<close>

fun merge_agent ::
  "Plugin list \<Rightarrow> Plugin list \<times> (string, unit) gomap \<Rightarrow> panic + Plugin list \<times> (string, unit) gomap"
where
  "merge_agent [] st = Inr st"
| "merge_agent (plugin # rest) (result, pluginMap) =
     (case map_assign pluginMap (Location plugin) () of
        Inl p \<Rightarrow> Inl p
      | Inr pluginMap' \<Rightarrow> merge_agent rest (result @ [plugin], pluginMap'))"

text \<open>The second loop, over the job plugins.\<close>

fun merge_job :: "Plugin list \<Rightarrow> (string, unit) gomap \<Rightarrow> Plugin list \<Rightarrow> Plugin list" where
  "merge_job [] pluginMap result = result"
| "merge_job (plugin # rest) pluginMap result =
     (if map_exists pluginMap (Location plugin) then merge_job rest pluginMap result
      else merge_job rest pluginMap (result @ [plugin]))"

definition MergePlugins :: "Plugin list \<Rightarrow> Plugin list \<Rightarrow> panic + Plugin list" where
  "MergePlugins jobPlugins agentPlugins =
     (case merge_agent agentPlugins ([], None) of
        Inl p \<Rightarrow> Inl p
      | Inr (result, pluginMap) \<Rightarrow> Inr (merge_job jobPlugins pluginMap result))"

text \<open>
  \<^verbatim>\<open>locationSchemeRegex.MatchString\<close> for the expression \<^verbatim>\<open>^[a-z\+]+://\<close>: the longest
  run of lower-case letters and plus signs at the start is not empty and is followed by
  \<open>://\<close> (no shorter run can be, since \<open>:\<close> is not in the class).
\<close>

definition locationSchemeRegex_MatchString :: "string \<Rightarrow> bool" where
  "locationSchemeRegex_MatchString s =
     (let run = takeWhile (\<lambda>c. c \<in> set ''abcdefghijklmnopqrstuvwxyz+'') s
      in run \<noteq> [] \<and> HasPrefix (drop (length run) s) ''://'')"

definition CreatePlugin ::
  "golang \<Rightarrow> string \<Rightarrow> (string \<times> jvalue) list \<Rightarrow> string + Plugin"
where
  "CreatePlugin G location config =
     (case url_Parse G location of
        Inl err \<Rightarrow> Inl err
      | Inr u \<Rightarrow>
          if Fragment u \<noteq> [] \<and> CHR ''#'' \<in> set (Fragment u)
          then Inl (''Too many #'' @ [CHR 0x27] @ ''s in '' @ [CHR 0x22] @ location @ [CHR 0x22])
          else Inr \<lparr>Location = Host u @ Path u, Version = Fragment u, Scheme' = Scheme u,
                    Authentication = (case User u of None \<Rightarrow> [] | Some a \<Rightarrow> a),
                    Configuration = config\<rparr>)"

text \<open>
  The statements of \<^verbatim>\<open>ResolvePluginLocation\<close> after the location string is fixed:
  parse it, default the fragment and the scheme, and print the URL.
\<close>

definition resolve_url :: "golang \<Rightarrow> string \<Rightarrow> string + string" where
  "resolve_url G location =
     (case url_Parse G location of
        Inl err \<Rightarrow> Inl err
      | Inr u \<Rightarrow>
          (let u1 = (if Fragment u = [] then u\<lparr>Fragment := ''master''\<rparr> else u);
               u2 = (if Scheme u1 = [] then u1\<lparr>Scheme := ''https''\<rparr> else u1)
           in Inr (url_String G u2)))"

definition ResolvePluginLocation :: "golang \<Rightarrow> string \<Rightarrow> string + string" where
  "ResolvePluginLocation G location =
     (if locationSchemeRegex_MatchString location then resolve_url G location
      else
        let parts = Split location CHR ''/''
        in if 3 \<le> length parts then resolve_url G (''https://'' @ location)
           else if length parts = 2 then resolve_url G (''https://github.com/'' @ location)
           else if length parts = 1
             then resolve_url G (''https://github.com/buildkite-plugins/'' @ location)
           else resolve_url G location)"

text \<open>
  The class \<^verbatim>\<open>\s\<close> of Go's regular expressions: tab, newline, form feed, carriage return
  and space.
\<close>

definition is_space :: "char \<Rightarrow> bool" where
  "is_space c = (c \<in> set [CHR 0x09, CHR 0x0A, CHR 0x0C, CHR 0x0D, CHR 0x20])"











text \<open>The bytes that \<^verbatim>\<open>toDashRegex\<close> and \<^verbatim>\<open>removeDoubleUnderscore\<close> leave alone.\<close>

definition kept :: "char \<Rightarrow> bool" where
  "kept c = (c \<noteq> CHR ''-'' \<and> \<not> is_space c \<and> c \<noteq> CHR ''_'')"

section \<open>agent/artifact_uploader.go: collecting artifacts\<close>

text \<open>
  The fields of the configuration that \<^verbatim>\<open>Collect\<close> and \<^verbatim>\<open>build\<close> read.
\<close>

record ArtifactUploaderConfig =
  Paths :: string
  ContentType :: string
  GlobResolveFollowSymlinks :: bool
  UploadSkipSymlinks :: bool

text \<open>
  An \<^verbatim>\<open>api.Artifact\<close> as \<^verbatim>\<open>build\<close> fills it (\<open>Path'\<close> and \<open>ContentType'\<close> are its fields
  \<^verbatim>\<open>Path\<close> and \<^verbatim>\<open>ContentType\<close>).
\<close>

record Artifact =
  Path' :: string
  AbsolutePath :: string
  GlobPath :: string
  FileSize :: int
  Sha1Sum :: string
  Sha256Sum :: string
  ContentType' :: string

text \<open>The two experiments that \<^verbatim>\<open>Collect\<close> asks for.\<close>

record experiments =
  UseZZGlob :: bool
  NormalisedUploadPaths :: bool

text \<open>The error of \<^verbatim>\<open>zglob.Glob\<close>: \<^verbatim>\<open>os.ErrNotExist\<close> or another one.\<close>

datatype glob_error = ErrNotExist | OtherGlobError string

text \<open>
  The file system and the libraries that read it, as \<^verbatim>\<open>Collect\<close> and \<^verbatim>\<open>build\<close> use them;
  an error is its message.
  \<^item> \<open>Stat_IsDir\<close> and \<open>Lstat_IsSymlink\<close> are the functions \<^verbatim>\<open>isDir\<close> and \<^verbatim>\<open>isSymlink\<close>.
  \<^item> \<open>WalkDir root\<close> lists the calls that \<^verbatim>\<open>filepath.WalkDir\<close> makes to its function as long
    as it returns nil: the path, \<^verbatim>\<open>d.IsDir()\<close> and the error passed.
  \<^item> \<open>zzglob_Glob pattern follow\<close> lists the calls that \<^verbatim>\<open>pattern.Glob\<close> makes to its function
    (the path, \<^verbatim>\<open>d.IsDir()\<close> when \<open>d\<close> is not nil, and the error passed) and the error that
    it returns.
  \<^item> \<open>zglob_Glob pattern follow\<close> is \<^verbatim>\<open>zglob.GlobFollowSymlinks\<close> when \<open>follow\<close> holds and
    \<^verbatim>\<open>zglob.Glob\<close> otherwise.
  \<^item> \<open>Open_Stat\<close> opens a file and reads its size; \<open>Sha1\<close> and \<open>Sha256\<close> are the digests of
    its content in hexadecimal.
\<close>

record filesystem =
  Getwd :: "string + string"
  Abs :: "string \<Rightarrow> string + string"
  Stat_IsDir :: "string \<Rightarrow> bool"
  Lstat_IsSymlink :: "string \<Rightarrow> bool"
  WalkDir :: "string \<Rightarrow> (string \<times> bool \<times> string option) list"
  EvalSymlinks :: "string \<Rightarrow> string + string"
  Rel :: "string \<Rightarrow> string \<Rightarrow> string + string"
  ToSlash :: "string \<Rightarrow> string"
  IsAbs :: "string \<Rightarrow> bool"
  VolumeName :: "string \<Rightarrow> string"
  zzglob_Parse :: "string \<Rightarrow> string option"
  zzglob_Glob :: "string \<Rightarrow> bool \<Rightarrow> (string \<times> bool option \<times> string option) list \<times> string option"
  zglob_Glob :: "string \<Rightarrow> bool \<Rightarrow> string list \<times> glob_error option"
  Open_Stat :: "string \<Rightarrow> string + int"
  Sha1 :: "string \<Rightarrow> string"
  Sha256 :: "string \<Rightarrow> string"
  Ext :: "string \<Rightarrow> string"
  TypeByExtension :: "string \<Rightarrow> string"

definition ArtifactPathDelimiter :: char where
  "ArtifactPathDelimiter = CHR '';''"

definition ArtifactFallbackMimeType :: string where
  "ArtifactFallbackMimeType = ''binary/octet-stream''"

definition build ::
  "filesystem \<Rightarrow> ArtifactUploaderConfig \<Rightarrow> string \<Rightarrow> string \<Rightarrow> string \<Rightarrow> string + Artifact"
where
  "build fs config path absolutePath globPath =
     (case Open_Stat fs absolutePath of
        Inl err \<Rightarrow> Inl err
      | Inr fileSize \<Rightarrow>
          (let contentType =
                 (if ContentType config = []
                  then (let t = TypeByExtension fs (Ext fs absolutePath)
                        in if t = [] then ArtifactFallbackMimeType else t)
                  else ContentType config)
           in Inr \<lparr>Path' = path, AbsolutePath = absolutePath, GlobPath = globPath,
                    FileSize = fileSize, Sha1Sum = Sha1 fs absolutePath,
                    Sha256Sum = Sha256 fs absolutePath, ContentType' = contentType\<rparr>))"

text \<open>
  The variables of \<^verbatim>\<open>Collect\<close> that its loops change: the map \<^verbatim>\<open>seenPaths\<close>, the result
  \<^verbatim>\<open>artifacts\<close> and the working directory \<^verbatim>\<open>wd\<close>.
\<close>

record collect_state =
  seenPaths :: "string \<rightharpoonup> bool"
  artifacts :: "Artifact list"
  wd :: string

text \<open>The function that \<^verbatim>\<open>Collect\<close> passes to \<^verbatim>\<open>filepath.WalkDir\<close>, on one call.\<close>

definition walk_fn ::
  "filesystem \<Rightarrow> experiments \<Rightarrow> ArtifactUploaderConfig \<Rightarrow> string \<Rightarrow> collect_state
     \<Rightarrow> string \<times> bool \<times> string option \<Rightarrow> string + collect_state"
where
  "walk_fn fs X config literalPath st call =
     (case call of (p, d_IsDir, error) \<Rightarrow>
        (case error of
           Some err \<Rightarrow> Inl err
         | None \<Rightarrow>
            if seenPaths st p \<noteq> None then Inr st
            else if d_IsDir then Inr st
            else
              (case (if GlobResolveFollowSymlinks config then EvalSymlinks fs p else Inr p) of
                 Inl err \<Rightarrow> Inl err
               | Inr path \<Rightarrow>
                  (let st1 = st\<lparr>seenPaths := (seenPaths st)(p \<mapsto> True)\<rparr>
                   in case Rel fs (wd st1) path of
                        Inl err \<Rightarrow> Inl err
                      | Inr path \<Rightarrow>
                         (let path = (if NormalisedUploadPaths X then ToSlash fs path else path)
                          in case build fs config path p literalPath of
                               Inl err \<Rightarrow> Inl err
                             | Inr artifact \<Rightarrow>
                                Inr (st1\<lparr>artifacts := artifacts st1 @ [artifact]\<rparr>))))))"

text \<open>\<^verbatim>\<open>filepath.WalkDir\<close>: it stops at the first call that returns an error.\<close>

fun walk_dir ::
  "filesystem \<Rightarrow> experiments \<Rightarrow> ArtifactUploaderConfig \<Rightarrow> string
     \<Rightarrow> (string \<times> bool \<times> string option) list \<Rightarrow> collect_state \<Rightarrow> string + collect_state"
where
  "walk_dir fs X config literalPath [] st = Inr st"
| "walk_dir fs X config literalPath (call # calls) st =
     (case walk_fn fs X config literalPath st call of
        Inl err \<Rightarrow> Inl err
      | Inr st' \<Rightarrow> walk_dir fs X config literalPath calls st')"

text \<open>The first loop of \<^verbatim>\<open>Collect\<close>, over the prospects that are directories.\<close>

fun collect_dirs ::
  "filesystem \<Rightarrow> experiments \<Rightarrow> ArtifactUploaderConfig \<Rightarrow> string list \<Rightarrow> collect_state
     \<Rightarrow> string + collect_state"
where
  "collect_dirs fs X config [] st = Inr st"
| "collect_dirs fs X config (prospect # prospects) st =
     (let literalPath = TrimSpace prospect
      in if literalPath = [] then collect_dirs fs X config prospects st
         else
           (case Abs fs literalPath of
              Inl err \<Rightarrow> Inl err
            | Inr absolutePath \<Rightarrow>
               if seenPaths st absolutePath \<noteq> None then collect_dirs fs X config prospects st
               else if Stat_IsDir fs absolutePath
               then (case walk_dir fs X config literalPath (WalkDir fs absolutePath) st of
                       Inl err \<Rightarrow> Inl err
                     | Inr st' \<Rightarrow> collect_dirs fs X config prospects st')
               else collect_dirs fs X config prospects st))"

text \<open>The loop over the files that a glob matched.\<close>

fun collect_files ::
  "filesystem \<Rightarrow> golang \<Rightarrow> experiments \<Rightarrow> ArtifactUploaderConfig \<Rightarrow> string \<Rightarrow> string list
     \<Rightarrow> collect_state \<Rightarrow> string + collect_state"
where
  "collect_files fs G X config globPath [] st = Inr st"
| "collect_files fs G X config globPath (file # files) st =
     (case Abs fs file of
        Inl err \<Rightarrow> Inl (''resolving absolute path for file '' @ file @ '': '' @ err)
      | Inr absolutePath \<Rightarrow>
         if seenPaths st absolutePath \<noteq> None then collect_files fs G X config globPath files st
         else
           (let st1 = st\<lparr>seenPaths := (seenPaths st)(absolutePath \<mapsto> True)\<rparr>
            in if Stat_IsDir fs absolutePath then collect_files fs G X config globPath files st1
               else if UploadSkipSymlinks config \<and> Lstat_IsSymlink fs absolutePath
               then collect_files fs G X config globPath files st1
               else
                 (let st2 =
                        (if IsAbs fs globPath
                         then st1\<lparr>wd := (if GOOS G = ''windows''
                                          then VolumeName fs absolutePath @ ''/'' else ''/'')\<rparr>
                         else st1)
                  in case Rel fs (wd st2) absolutePath of
                       Inl err \<Rightarrow>
                         Inl (''resolving relative path for file '' @ file @ '': '' @ err)
                     | Inr path \<Rightarrow>
                        (let path = (if NormalisedUploadPaths X then ToSlash fs path else path)
                         in case build fs config path absolutePath globPath of
                              Inl err \<Rightarrow> Inl (''building artifact: '' @ err)
                            | Inr artifact \<Rightarrow>
                               collect_files fs G X config globPath files
                                 (st2\<lparr>artifacts := artifacts st2 @ [artifact]\<rparr>)))))"

text \<open>The files that the function given to \<^verbatim>\<open>pattern.Glob\<close> appends.\<close>

definition zz_files :: "(string \<times> bool option \<times> string option) list \<Rightarrow> string list" where
  "zz_files calls =
     map fst (filter (\<lambda>(path, d, err). err = None \<and> d \<noteq> Some True) calls)"

text \<open>The second loop of \<^verbatim>\<open>Collect\<close>, over the prospects as globs.\<close>

fun collect_globs ::
  "filesystem \<Rightarrow> golang \<Rightarrow> experiments \<Rightarrow> ArtifactUploaderConfig \<Rightarrow> string list
     \<Rightarrow> collect_state \<Rightarrow> string + collect_state"
where
  "collect_globs fs G X config [] st = Inr st"
| "collect_globs fs G X config (prospect # prospects) st =
     (let globPath = TrimSpace prospect
      in if globPath = [] then collect_globs fs G X config prospects st
         else if UseZZGlob X then
           (case zzglob_Parse fs globPath of
              Some err \<Rightarrow> Inl (''invalid glob pattern: '' @ err)
            | None \<Rightarrow>
               (case zzglob_Glob fs globPath (GlobResolveFollowSymlinks config) of
                  (calls, Some err) \<Rightarrow> Inl (''globbing pattern: '' @ err)
                | (calls, None) \<Rightarrow>
                   (case collect_files fs G X config globPath (zz_files calls) st of
                      Inl err \<Rightarrow> Inl err
                    | Inr st' \<Rightarrow> collect_globs fs G X config prospects st')))
         else
           (case zglob_Glob fs globPath (GlobResolveFollowSymlinks config) of
              (files, Some ErrNotExist) \<Rightarrow> collect_globs fs G X config prospects st
            | (files, Some (OtherGlobError err)) \<Rightarrow> Inl (''resolving glob: '' @ err)
            | (files, None) \<Rightarrow>
               (case collect_files fs G X config globPath files st of
                  Inl err \<Rightarrow> Inl err
                | Inr st' \<Rightarrow> collect_globs fs G X config prospects st')))"

definition Collect' ::
  "filesystem \<Rightarrow> golang \<Rightarrow> experiments \<Rightarrow> ArtifactUploaderConfig \<Rightarrow> string + Artifact list"
where
  "Collect' fs G X config =
     (case Getwd fs of
        Inl err \<Rightarrow> Inl (''getting working directory: '' @ err)
      | Inr dir \<Rightarrow>
         (let prospects = Split (Paths config) ArtifactPathDelimiter
          in case collect_dirs fs X config prospects
                    \<lparr>seenPaths = Map.empty, artifacts = [], wd = dir\<rparr> of
               Inl err \<Rightarrow> Inl err
             | Inr st \<Rightarrow>
                (case collect_globs fs G X config prospects st of
                   Inl err \<Rightarrow> Inl err
                 | Inr st' \<Rightarrow> Inr (artifacts st'))))"

text \<open>
  What the loops of \<^verbatim>\<open>Collect\<close> (the function \<open>Collect'\<close> above) keep: the artifacts have distinct absolute paths, all of
  them keys of \<^verbatim>\<open>seenPaths\<close>.
\<close>

definition collected :: "collect_state \<Rightarrow> bool" where
  "collected st =
     (distinct (map AbsolutePath (artifacts st))
      \<and> set (map AbsolutePath (artifacts st)) \<subseteq> dom (seenPaths st))"

text \<open>
  A working directory \<open>/w\<close> for the examples: the files \<open>out/app.log\<close> and
  \<open>out/sub/x.log\<close>, and the symbolic link \<open>out/link.log\<close> to \<open>out/app.log\<close>. The glob
  \<open>out/**/*.log\<close> matches the three, the glob \<open>out/app.log\<close> matches the file.
\<close>

definition example_fs :: filesystem where
  "example_fs =
     \<lparr>Getwd = Inr ''/w'',
      Abs = (\<lambda>p. Inr (''/w/'' @ p)),
      Stat_IsDir = (\<lambda>p. p = ''/w/out'' \<or> p = ''/w/out/sub''),
      Lstat_IsSymlink = (\<lambda>p. p = ''/w/out/link.log''),
      WalkDir = (\<lambda>root. []),
      EvalSymlinks = (\<lambda>p. if p = ''/w/out/link.log'' then Inr ''/w/out/app.log'' else Inr p),
      Rel = (\<lambda>base p. Inr (drop (Suc (length base)) p)),
      ToSlash = (\<lambda>p. p),
      IsAbs = (\<lambda>p. HasPrefix p ''/''),
      VolumeName = (\<lambda>p. []),
      zzglob_Parse = (\<lambda>pattern. None),
      zzglob_Glob = (\<lambda>pattern follow. ([], None)),
      zglob_Glob = (\<lambda>pattern follow.
         if pattern = ''out/**/*.log''
         then ([''out/app.log'', ''out/link.log'', ''out/sub/x.log''], None)
         else if pattern = ''out/app.log'' then ([''out/app.log''], None)
         else ([], Some ErrNotExist)),
      Open_Stat = (\<lambda>p. Inr 1),
      Sha1 = (\<lambda>p. []),
      Sha256 = (\<lambda>p. []),
      Ext = (\<lambda>p. ''.log''),
      TypeByExtension = (\<lambda>ext. ''text/plain'')\<rparr>"

definition example_conf :: ArtifactUploaderConfig where
  "example_conf =
     \<lparr>Paths = ''out/**/*.log;out/app.log'', ContentType = [],
      GlobResolveFollowSymlinks = False, UploadSkipSymlinks = False\<rparr>"

definition no_experiments :: experiments where
  "no_experiments = \<lparr>UseZZGlob = False, NormalisedUploadPaths = False\<rparr>"

definition log_artifact :: "string \<Rightarrow> string \<Rightarrow> Artifact" where
  "log_artifact path glob =
     \<lparr>Path' = path, AbsolutePath = ''/w/'' @ path, GlobPath = glob, FileSize = 1, Sha1Sum = [],
      Sha256Sum = [], ContentType' = ''text/plain''\<rparr>"


section \<open>Results\<close>

subsection \<open>The environment round trip\<close>

lemmas env_eval = ToSlice_def Get_def EnvironmentFromSlice_def flush_def FindStringSubmatch_def
  key_shape_def
  letters_def digits_def Set_def set_key_def set_value_def linux_def windows_def TrimSpace_def
  rune_width_def space_runes_def HasPrefix_def HasSuffix_def quoted_def Trim_def range_order_def
  plain_entry_def stored_keys_def expand_escapes_def



lemma rune_width_space_0:
  "c \<notin> set [CHR 0x09, CHR 0x0A, CHR 0x0B, CHR 0x0C, CHR 0x0D, CHR 0x20, CHR 0xC2, CHR 0xE1, CHR 0xE2, CHR 0xE3]
   \<Longrightarrow> rune_width space_runes (c # cs) = 0"
  by (simp add: rune_width_def space_runes_def HasPrefix_def)

lemma rune_width_rev_space_0:
  "c \<notin> set [CHR 0x09, CHR 0x0A, CHR 0x0B, CHR 0x0C, CHR 0x0D, CHR 0x20, CHR 0x85, CHR 0xA0,
       CHR 0x80, CHR 0x81, CHR 0x82, CHR 0x83, CHR 0x84, CHR 0x85, CHR 0x86, CHR 0x87, CHR 0x88,
       CHR 0x89, CHR 0x8A, CHR 0xA8, CHR 0xA9, CHR 0xAF, CHR 0x9F]
   \<Longrightarrow> rune_width (map rev space_runes) (c # cs) = 0"
  by (simp add: rune_width_def space_runes_def HasPrefix_def)

lemma word_char_not_space:
  assumes "word_char c"
  shows "rune_width space_runes (c # cs) = 0" and "rune_width (map rev space_runes) (c # cs) = 0"
proof -
  have "c \<in> set (letters @ digits @ ''_'')" using assms by (simp add: word_char_def)
  then have a: "c \<notin> set [CHR 0x09, CHR 0x0A, CHR 0x0B, CHR 0x0C, CHR 0x0D, CHR 0x20, CHR 0xC2, CHR 0xE1, CHR 0xE2, CHR 0xE3]"
   and b: "c \<notin> set [CHR 0x09, CHR 0x0A, CHR 0x0B, CHR 0x0C, CHR 0x0D, CHR 0x20, CHR 0x85, CHR 0xA0,
       CHR 0x80, CHR 0x81, CHR 0x82, CHR 0x83, CHR 0x84, CHR 0x85, CHR 0x86, CHR 0x87, CHR 0x88,
       CHR 0x89, CHR 0x8A, CHR 0xA8, CHR 0xA9, CHR 0xAF, CHR 0x9F]"
    by (auto simp add: letters_def digits_def)
  show "rune_width space_runes (c # cs) = 0" using a by (rule rune_width_space_0)
  show "rune_width (map rev space_runes) (c # cs) = 0" using b by (rule rune_width_rev_space_0)
qed


lemma key_shape_ends:
  assumes "key_shape k"
  shows "k \<noteq> []" and "word_char (hd k)" and "word_char (last k)" and "CHR ''='' \<notin> set k"
proof -
  from assms show ne: "k \<noteq> []" by (simp add: key_shape_def)
  from assms have all: "\<forall>c\<in>set k. word_char c"
    by (simp add: key_shape_def list_all_iff word_char_def)
  from ne all show "word_char (hd k)" by simp
  from ne all show "word_char (last k)" by simp
  have "\<not> word_char CHR ''=''" by (simp add: word_char_def letters_def digits_def)
  with all show "CHR ''='' \<notin> set k" by blast
qed

lemma trim_left_runes_id: "s \<noteq> [] \<Longrightarrow> rune_width runes s = 0 \<Longrightarrow> trim_left_runes runes s = s"
  by (cases s) simp_all

lemma TrimSpace_word:
  assumes "s \<noteq> []" and "word_char (hd s)" and "word_char (last s)"
  shows "TrimSpace s = s"
proof -
  from assms obtain c cs where s: "s = c # cs" and c: "word_char c" by (cases s) auto
  have l: "trim_left_runes space_runes s = s"
    using word_char_not_space(1) [OF c] by (simp add: s)
  from assms obtain d ds where r: "rev s = d # ds" and d: "word_char d"
    by (cases "rev s") (auto simp: last_rev [symmetric] hd_rev)
  have "trim_left_runes (map rev space_runes) (rev s) = rev s"
    using word_char_not_space(2) [OF d] by (simp add: r)
  with l show ?thesis by (simp add: TrimSpace_def)
qed

lemma TrimSpace_key: "key_shape k \<Longrightarrow> TrimSpace k = k"
  by (rule TrimSpace_word) (simp_all add: key_shape_ends)

lemma FindStringSubmatch_line:
  assumes "key_shape k" and "v \<noteq> []" and "CHR 0x0A \<notin> set v"
  shows "FindStringSubmatch (k @ ''='' @ v) = Some (k, v)"
proof -
  have eq: "CHR ''='' \<notin> set k" using assms(1) by (rule key_shape_ends)
  then have t: "takeWhile (\<lambda>c. c \<noteq> CHR ''='') (k @ CHR ''='' # v) = k"
    by (induction k) auto
  from eq have d: "dropWhile (\<lambda>c. c \<noteq> CHR ''='') (k @ CHR ''='' # v) = CHR ''='' # v"
    by (induction k) auto
  show ?thesis using assms by (simp add: FindStringSubmatch_def t d)
qed

lemma Set_plain: "plain_entry G (k, v) \<Longrightarrow> snd (Set G k v env) = env(k \<mapsto> v)"
  by (simp add: plain_entry_def Set_def set_key_def TrimSpace_key)

lemma FindStringSubmatch_plain: "plain_entry G p \<Longrightarrow> FindStringSubmatch (line_of p) = Some p"
  using FindStringSubmatch_line [of "fst p" "snd p"] by (simp add: plain_entry_def line_of_def)

lemma store_pair: "store (k, v) m = m(k \<mapsto> v)"
  by (simp add: store_def)

lemma scan_lines_plain:
  assumes "\<forall>p\<in>set ps. plain_entry G p" and "plain_entry G (k, v)"
  shows "flush G (scan_lines G (map line_of ps) (env, k, [v]))
         = fold store ps (env(k \<mapsto> v))"
  using assms
proof (induction ps arbitrary: env k v)
  case Nil
  have "k \<noteq> []" using Nil(2) by (simp add: plain_entry_def key_shape_def)
  then show ?case by (simp add: flush_def Set_plain [OF Nil(2)])
next
  case (Cons p ps)
  obtain k' v' where p: "p = (k', v')" by (cases p)
  have pe: "plain_entry G (k', v')" using Cons.prems(1) by (simp add: p)
  have k: "k \<noteq> []" using Cons.prems(2) by (simp add: plain_entry_def key_shape_def)
  have m: "FindStringSubmatch (line_of (k', v')) = Some (k', v')"
    using pe by (rule FindStringSubmatch_plain)
  have "flush G (scan_lines G (map line_of (p # ps)) (env, k, [v]))
        = flush G (scan_lines G (map line_of ps) (env(k \<mapsto> v), k', [v']))"
    using k by (simp add: p m Set_plain [OF Cons.prems(2)])
  also have "\<dots> = fold store ps ((env(k \<mapsto> v))(k' \<mapsto> v'))"
    using Cons.prems(1) pe by (intro Cons.IH) simp_all
  finally show ?case by (simp only: p fold_Cons comp_apply store_pair)
qed

lemma EnvironmentFromSlice_plain:
  assumes "\<forall>p\<in>set ps. plain_entry G p"
  shows "EnvironmentFromSlice G (map line_of ps) = fold store ps Map.empty"
proof (cases ps)
  case Nil
  then show ?thesis by (simp add: EnvironmentFromSlice_def flush_def)
next
  case (Cons p ps')
  obtain k v where p: "p = (k, v)" by (cases p)
  have pe: "plain_entry G (k, v)" using assms by (simp add: Cons p)
  have rest: "\<forall>p\<in>set ps'. plain_entry G p" using assms by (simp add: Cons)
  have m: "FindStringSubmatch (line_of (k, v)) = Some (k, v)"
    using pe by (rule FindStringSubmatch_plain)
  have "EnvironmentFromSlice G (map line_of ps) = flush G (scan_lines G (map line_of ps) (Map.empty, [], []))"
    by (simp add: EnvironmentFromSlice_def)
  also have "\<dots> = flush G (scan_lines G (map line_of ps') (Map.empty, k, [v]))"
    using m by (simp add: Cons p)
  also have "\<dots> = fold store ps' (Map.empty(k \<mapsto> v))"
    using rest pe by (rule scan_lines_plain)
  finally show ?thesis by (simp only: Cons p fold_Cons comp_apply store_pair)
qed

lemma fold_update_map_of:
  "distinct (map fst ps) \<Longrightarrow> fold store ps m = m ++ map_of ps"
proof (induction ps arbitrary: m)
  case Nil
  then show ?case by simp
next
  case (Cons p ps)
  obtain k v where p: "p = (k, v)" by (cases p)
  from Cons.prems have k: "k \<notin> fst ` set ps" and d: "distinct (map fst ps)" by (simp_all add: p)
  have "fold store (p # ps) m = fold store ps (m(k \<mapsto> v))"
    by (simp only: p fold_Cons comp_apply store_pair)
  also have "\<dots> = (m(k \<mapsto> v)) ++ map_of ps"
    by (rule Cons.IH [OF d])
  also have "\<dots> = m ++ map_of (p # ps)"
  proof (rule ext)
    fix x
    have n: "map_of ps k = None" using k by (simp add: map_of_eq_None_iff)
    show "((m(k \<mapsto> v)) ++ map_of ps) x = (m ++ map_of (p # ps)) x"
      using n by (cases "x = k") (simp_all add: p map_add_def split: option.splits)
  qed
  finally show ?case .
qed


lemma fold_store_map_of: "distinct (map fst ps) \<Longrightarrow> fold store ps Map.empty = map_of ps"
  by (simp add: fold_update_map_of)

lemma Get_dom: "k \<in> dom e \<Longrightarrow> e k = Some (Get e k)"
  by (auto simp: Get_def)



lemma map_of_graph:
  assumes "distinct (map fst ps)" and "set ps = (\<lambda>k. (k, Get e k)) ` dom e"
  shows "map_of ps = e"
proof (rule ext)
  fix k
  show "map_of ps k = e k"
  proof (cases "k \<in> dom e")
    case True
    then have "(k, Get e k) \<in> set ps" by (simp add: assms(2))
    with assms(1) have "map_of ps k = Some (Get e k)" by simp
    then show ?thesis using Get_dom [OF True] by simp
  next
    case False
    then have "k \<notin> fst ` set ps" by (auto simp: assms(2))
    then have "map_of ps k = None" by (simp add: map_of_eq_None_iff)
    with False show ?thesis by (auto simp: dom_def)
  qed
qed

text \<open>
  C1 (as amended). On an environment whose entries are all plain, serialising with
  \<^verbatim>\<open>ToSlice\<close> and parsing with \<^verbatim>\<open>EnvironmentFromSlice\<close> gives the environment back,
  whatever the order in which \<^verbatim>\<open>ToSlice\<close> ranged over the map.
\<close>

theorem EnvironmentFromSlice_ToSlice:
  assumes ord: "range_order order e"
    and plain: "\<forall>k\<in>dom e. plain_entry G (k, Get e k)"
  shows "EnvironmentFromSlice G (ToSlice order e) = e"
proof -
  define entry where "entry = (\<lambda>k. (k, Get e k))"
  define parse where "parse = (\<lambda>l. the (FindStringSubmatch l))"
  define ls where "ls = sort (map (\<lambda>k. line_of (entry k)) order)"
  define ps where "ps = map parse ls"
  have dom: "set order = dom e" and dist: "distinct order"
    using ord by (simp_all add: range_order_def)
  have ToSlice: "ToSlice order e = ls"
    by (simp add: ToSlice_def ls_def line_of_def entry_def)
  have set_ls: "set ls = (\<lambda>k. line_of (entry k)) ` dom e"
    by (simp add: ls_def dom)
  have parse: "parse (line_of (entry k)) = entry k" if "k \<in> dom e" for k
  proof -
    have "plain_entry G (entry k)" using plain that by (simp add: entry_def)
    then show ?thesis by (simp add: parse_def FindStringSubmatch_plain)
  qed
  have fst_entry: "fst (entry k) = k" for k by (simp add: entry_def)
  have set_ps: "set ps = entry ` dom e"
  proof -
    have "set ps = (\<lambda>k. parse (line_of (entry k))) ` dom e"
      by (simp add: ps_def set_ls image_image)
    also have "\<dots> = entry ` dom e"
      by (rule image_cong) (simp_all add: parse)
    finally show ?thesis .
  qed
  have "inj_on (\<lambda>k. line_of (entry k)) (set order)"
  proof (rule inj_onI)
    fix x y assume x: "x \<in> set order" and y: "y \<in> set order"
      and eq: "line_of (entry x) = line_of (entry y)"
    from x have px: "parse (line_of (entry x)) = entry x" by (intro parse) (simp only: dom)
    from y have py: "parse (line_of (entry y)) = entry y" by (intro parse) (simp only: dom)
    have "entry x = parse (line_of (entry x))" using px by (rule sym)
    also have "\<dots> = parse (line_of (entry y))" using eq by (rule arg_cong)
    also have "\<dots> = entry y" by (rule py)
    finally have "fst (entry x) = fst (entry y)" by (rule arg_cong)
    then show "x = y" by (simp only: fst_entry)
  qed
  then have "distinct (map (\<lambda>k. line_of (entry k)) order)"
    using dist by (simp add: distinct_map)
  then have dist_ls: "distinct ls" by (simp add: ls_def)
  have "inj_on (\<lambda>l. fst (parse l)) (set ls)"
  proof (rule inj_onI)
    fix x y assume x: "x \<in> set ls" and y: "y \<in> set ls"
      and eq: "fst (parse x) = fst (parse y)"
    from x obtain k where k: "k \<in> dom e" "x = line_of (entry k)" unfolding set_ls by blast
    from y obtain k' where k': "k' \<in> dom e" "y = line_of (entry k')" unfolding set_ls by blast
    from eq have "k = k'" by (simp add: k k' parse fst_entry)
    then show "x = y" by (simp add: k k')
  qed
  with dist_ls have "distinct (map (\<lambda>l. fst (parse l)) ls)"
    by (simp add: distinct_map)
  then have dist_ps: "distinct (map fst ps)"
    by (simp add: ps_def comp_def)
  have lines: "map line_of ps = ls"
  proof -
    have "line_of (parse l) = l" if "l \<in> set ls" for l
    proof -
      from that obtain k where k: "k \<in> dom e" "l = line_of (entry k)" unfolding set_ls by blast
      show ?thesis by (simp add: k parse)
    qed
    then show ?thesis by (simp add: ps_def map_idI)
  qed
  have all: "\<forall>p\<in>set ps. plain_entry G p"
    using plain by (simp add: set_ps entry_def)
  have "EnvironmentFromSlice G (ToSlice order e) = EnvironmentFromSlice G (map line_of ps)"
    by (simp only: ToSlice lines)
  also have "\<dots> = fold store ps Map.empty"
    using all by (rule EnvironmentFromSlice_plain)
  also have "\<dots> = map_of ps"
    using dist_ps by (rule fold_store_map_of)
  also have "\<dots> = e"
    using dist_ps set_ps unfolding entry_def by (rule map_of_graph)
  finally show ?thesis .
qed


theorem EnvironmentFromSlice_ToSlice_witness:
  "EnvironmentFromSlice linux
     (ToSlice [''PATH'', ''A_1''] [''PATH'' \<mapsto> ''/bin'', ''A_1'' \<mapsto> ''x y''])
   = [''PATH'' \<mapsto> ''/bin'', ''A_1'' \<mapsto> ''x y'']"
proof -
  have 1: "range_order [''PATH'', ''A_1''] [''PATH'' \<mapsto> ''/bin'', ''A_1'' \<mapsto> ''x y'']"
    by (auto simp add: range_order_def)
  have 2: "\<forall>k\<in>dom [''PATH'' \<mapsto> ''/bin'', ''A_1'' \<mapsto> ''x y''].
     plain_entry linux (k, Get [''PATH'' \<mapsto> ''/bin'', ''A_1'' \<mapsto> ''x y''] k)"
    by (simp add: env_eval)
  show ?thesis using 1 2 by (rule EnvironmentFromSlice_ToSlice)
qed

text \<open>
  C1 as stated fails. \<^verbatim>\<open>Set("A", "")\<close> stores the empty string under \<open>A\<close>; \<^verbatim>\<open>ToSlice\<close>
  gives the line \<open>A=\<close>, which the line expression rejects (its value group is \<open>.+\<close>), so
  the parsed environment has no \<open>A\<close>. A stored value with a newline gives one slice
  element that holds a newline, which \<open>.\<close> does not match, and is lost in the same way.
\<close>

theorem EnvironmentFromSlice_ToSlice_counterexample:
  "snd (Set linux ''A'' [] Map.empty) = [''A'' \<mapsto> []]
   \<and> range_order [''A''] [''A'' \<mapsto> []]
   \<and> EnvironmentFromSlice linux (ToSlice [''A''] [''A'' \<mapsto> []]) \<noteq> [''A'' \<mapsto> []]
   \<and> EnvironmentFromSlice linux (ToSlice [''A''] [''A'' \<mapsto> [CHR ''x'', CHR 0x0A, CHR ''y'']])
       \<noteq> [''A'' \<mapsto> [CHR ''x'', CHR 0x0A, CHR ''y'']]"
proof -
  have "EnvironmentFromSlice linux (ToSlice [''A''] [''A'' \<mapsto> []]) ''A'' = None"
    by (simp add: env_eval)
  then have a: "EnvironmentFromSlice linux (ToSlice [''A''] [''A'' \<mapsto> []]) \<noteq> [''A'' \<mapsto> []]"
    by (auto dest: fun_cong [where x = "''A''"])
  have "EnvironmentFromSlice linux (ToSlice [''A''] [''A'' \<mapsto> [CHR ''x'', CHR 0x0A, CHR ''y'']]) ''A''
        = None"
    by (simp add: env_eval)
  then have b: "EnvironmentFromSlice linux (ToSlice [''A''] [''A'' \<mapsto> [CHR ''x'', CHR 0x0A, CHR ''y'']])
       \<noteq> [''A'' \<mapsto> [CHR ''x'', CHR 0x0A, CHR ''y'']]"
    by (auto dest: fun_cong [where x = "''A''"])
  have c: "snd (Set linux ''A'' [] Map.empty) = [''A'' \<mapsto> []]"
    by (simp add: env_eval)
  have d: "range_order [''A''] [''A'' \<mapsto> []]" by (simp add: range_order_def)
  from a b c d show ?thesis by blast
qed

subsection \<open>What Set stores\<close>



































subsection \<open>Header times\<close>

lemma Upload_cursor: "cursor h \<le> length (times' h) \<Longrightarrow> cursor (fst (Upload cb h)) = length (times' h)"
  by (simp add: Upload_def Let_def split: callback_end.split)

lemma Upload_calls:
  "cursor h \<le> length (times' h) \<Longrightarrow>
   snd (snd (Upload cb h))
     = (if cursor h < length (times' h)
        then [(cursor h, length (times' h), payload_of (cursor h) (drop (cursor h) (times' h)))]
        else [])"
  by (simp add: Upload_def Let_def split: callback_end.split)

lemma Upload_times: "times' (fst (Upload cb h)) = times' h"
  by (simp add: Upload_def Let_def split: callback_end.split)

text \<open>
  C3 (as amended). \<^verbatim>\<open>Upload\<close> moves the cursor to the number of recorded times
  whatever the callback does and however it ends (the assignment precedes the call); the
  pending times are passed to the callback in one call, and an \<^verbatim>\<open>Upload\<close> that follows
  directly passes nothing: no time is passed twice, acknowledged or not.
\<close>

theorem Upload_advances_cursor:
  assumes "cursor h \<le> length (times' h)"
  shows "cursor (fst (Upload cb h)) = length (times' h)
    \<and> snd (snd (Upload cb h))
        = (if cursor h < length (times' h)
           then [(cursor h, length (times' h), payload_of (cursor h) (drop (cursor h) (times' h)))]
           else [])
    \<and> snd (snd (Upload cb' (fst (Upload cb h)))) = []"
proof -
  have c: "cursor (fst (Upload cb h)) = length (times' h)"
    using assms by (rule Upload_cursor)
  have "cursor (fst (Upload cb h)) \<le> length (times' (fst (Upload cb h)))"
    by (simp add: c Upload_times)
  then have "snd (snd (Upload cb' (fst (Upload cb h)))) = []"
    by (simp add: Upload_calls c Upload_times)
  with c Upload_calls [OF assms] show ?thesis by simp
qed

theorem Upload_advances_cursor_witness:
  "cursor (fst (Upload (\<lambda>c l p. Acknowledged)
      \<lparr>times' = [''t0'', ''t1'', ''t2''], uploadWaitGroup = 2, streaming = True, cursor = 1\<rparr>)) = 3
   \<and> snd (snd (Upload (\<lambda>c l p. Acknowledged)
      \<lparr>times' = [''t0'', ''t1'', ''t2''], uploadWaitGroup = 2, streaming = True, cursor = 1\<rparr>))
      = [(1, 3, [''1'' \<mapsto> ''t1'', ''2'' \<mapsto> ''t2''])]"
  using Upload_advances_cursor [of
      "\<lparr>times' = [''t0'', ''t1'', ''t2''], uploadWaitGroup = 2, streaming = True, cursor = 1\<rparr>"
      "\<lambda>c l p. Acknowledged" "\<lambda>c l p. Acknowledged"]
  by (simp add: payload_of_def fmt_d_def digit_char_def upt_rec)

text \<open>
  C3 as stated fails: with one pending time and a callback whose upload fails, or that
  panics, the cursor has moved from 0 to 1 all the same.
\<close>

theorem Upload_cursor_counterexample:
  "cursor (fst (Upload (\<lambda>c l p. Failed)
      \<lparr>times' = [''t0''], uploadWaitGroup = 1, streaming = True, cursor = 0\<rparr>)) = 1
   \<and> cursor (fst (Upload (\<lambda>c l p. Panicked)
      \<lparr>times' = [''t0''], uploadWaitGroup = 1, streaming = True, cursor = 0\<rparr>)) = 1"
  by (simp add: Upload_def Let_def)

subsection \<open>Exit status and plugins\<close>

lemma string_of_nat_digit: "n < 10 \<Longrightarrow> string_of_nat n = [digit_char n]"
  by simp

lemma fmt_d_0: "fmt_d 0 = ''0''"
  by (simp add: fmt_d_def digit_char_def)

lemma fmt_d_minus_1: "fmt_d (- 1) = ''-1''"
  by (simp add: fmt_d_def digit_char_def)

text \<open>
  C5. \<^verbatim>\<open>getExitStatus\<close> returns "0" for a nil wait error, the decimal rendering of the
  wait status's exit code for an \<^verbatim>\<open>*exec.ExitError\<close> whose \<^verbatim>\<open>Sys()\<close> is a
  \<^verbatim>\<open>syscall.WaitStatus\<close>, and "-1" for an exit error with any other \<^verbatim>\<open>Sys()\<close> value and
  for every other error.
\<close>

theorem getExitStatus_cases:
  "getExitStatus None = ''0''
   \<and> getExitStatus (Some (ExitError (WaitStatus s))) = fmt_d s
   \<and> getExitStatus (Some (ExitError OtherSys)) = ''-1''
   \<and> getExitStatus (Some (OtherError msg)) = ''-1''"
  by (simp add: getExitStatus_def fmt_d_0 fmt_d_minus_1)

lemma merge_agent_nil_map:
  "agentPlugins \<noteq> [] \<Longrightarrow> merge_agent agentPlugins (result, None) = Inl AssignmentToEntryInNilMap"
  by (cases agentPlugins) (simp_all add: map_assign_def)

lemma merge_job_nil_map: "merge_job jobPlugins None result = result @ jobPlugins"
  by (induction jobPlugins arbitrary: result) (simp_all add: map_exists_def)

text \<open>
  Without agent plugins the map is only read and \<^verbatim>\<open>MergePlugins\<close> returns the job plugins;
  with any agent plugin it panics.
\<close>

lemma MergePlugins_no_agent: "MergePlugins jobPlugins [] = Inr jobPlugins"
  by (simp add: MergePlugins_def merge_job_nil_map)

lemma MergePlugins_agent:
  "agentPlugins \<noteq> [] \<Longrightarrow> MergePlugins jobPlugins agentPlugins = Inl AssignmentToEntryInNilMap"
  by (simp add: MergePlugins_def merge_agent_nil_map)

text \<open>
  C2. With one agent plugin and no job plugin, \<^verbatim>\<open>MergePlugins\<close> does not return: the first
  iteration of the loop over the agent plugins assigns to an entry of the nil map
  \<^verbatim>\<open>pluginMap\<close>, which panics.
\<close>

theorem MergePlugins_panics:
  "MergePlugins []
     [\<lparr>Location = ''github.com/buildkite-plugins/docker'', Version = ''master'',
       Scheme' = ''https'', Authentication = [], Configuration = []\<rparr>]
   = Inl AssignmentToEntryInNilMap"
  by (simp add: MergePlugins_def map_assign_def)

subsection \<open>Running a child\<close>


lemma timeoutWait_bound: "snd (timeoutWait d) \<le> 10 * Second"
  by (simp add: timeoutWait_def split: option.split)

lemma make_if_nil_open: "ch \<noteq> Some Closed \<Longrightarrow> make_if_nil ch = Some Open"
proof (cases ch)
  case None
  then show ?thesis by (simp add: make_if_nil_def)
next
  case (Some c)
  assume "ch \<noteq> Some Closed"
  with Some show ?thesis by (cases c) (simp_all add: make_if_nil_def)
qed


lemma Start_started:
  assumes "startable p" and "start_error os = None" and "wait_result os = Some w"
    and "timeoutWait (if PTY (conf p) \<or> has_Handler (conf p) then drained os else Some 0) = (err, t)"
  shows "Start os p =
     (Returns None,
      p\<lparr>command := True, started := Some Closed, done' := Some Closed, Pid := child_pid os,
        ExitStatus := getExitStatus w\<rparr>,
      [ChildStarted, CloseStarted, WaitReturned w, CloseLineWriter, CloseDone,
       SetExitStatus (getExitStatus w), TimeoutWaitReturned err t])"
proof -
  have s: "make_if_nil (started p) = Some Open" and d: "make_if_nil (done' p) = Some Open"
    using assms(1) by (simp_all add: startable_def make_if_nil_open)
  show ?thesis
    using assms by (simp add: Start_def startable_def Let_def s d)
qed

lemma precedesI: "tr = xs @ a # ys @ b # zs \<Longrightarrow> precedes a b tr"
  unfolding precedes_def
  by (rule exI [of _ "length xs"], rule exI [of _ "length xs + Suc (length ys)"])
     (simp add: nth_append)

lemma Start_CloseDone_shape:
  assumes "CloseDone \<in> set (snd (snd (Start os p)))"
  shows "\<exists>w err t. wait_result os = Some w \<and> snd (snd (Start os p)) =
     [ChildStarted, CloseStarted, WaitReturned w, CloseLineWriter, CloseDone,
      SetExitStatus (getExitStatus w), TimeoutWaitReturned err t]"
  using assms
  by (auto simp: Start_def Let_def split: if_splits option.splits prod.splits)



lemma Start_exit_status_after_done:
  "SetExitStatus s \<in> set (snd (snd (Start os p))) \<Longrightarrow>
   (start_error os \<noteq> None \<and> s = ''1'') \<or> precedes CloseDone (SetExitStatus s) (snd (snd (Start os p)))"
proof -
  assume a: "SetExitStatus s \<in> set (snd (snd (Start os p)))"
  show ?thesis
  proof (cases "CloseDone \<in> set (snd (snd (Start os p)))")
    case True
    from Start_CloseDone_shape [OF True] obtain w err t where
      tr: "snd (snd (Start os p)) =
       [ChildStarted, CloseStarted, WaitReturned w, CloseLineWriter, CloseDone,
        SetExitStatus (getExitStatus w), TimeoutWaitReturned err t]" by auto
    with a have s: "s = getExitStatus w" by auto
    have "snd (snd (Start os p)) =
       [ChildStarted, CloseStarted, WaitReturned w, CloseLineWriter] @ CloseDone # [] @
        SetExitStatus s # [TimeoutWaitReturned err t]" by (simp add: tr s)
    then have "precedes CloseDone (SetExitStatus s) (snd (snd (Start os p)))" by (rule precedesI)
    then show ?thesis ..
  next
    case False
    with a show ?thesis
      by (auto simp: Start_def Let_def split: if_splits option.splits prod.splits)
  qed
qed




text \<open>
  C9. When the child was started and \<^verbatim>\<open>Wait\<close> returns, \<^verbatim>\<open>Start\<close> returns nil whether or
  not the goroutines of the wait group ever finish: after closing the pipe writer and the
  channel it spends in \<^verbatim>\<open>timeoutWait\<close> the time the goroutines need when that is less than
  10 seconds, and 10 seconds otherwise.
\<close>

theorem Start_drain_bounded:
  assumes "startable p" and "start_error os = None" and "wait_result os = Some w"
  shows "fst (Start os p) = Returns None
    \<and> (\<exists>err t. last (snd (snd (Start os p))) = TimeoutWaitReturned err t
          \<and> t \<le> 10 * Second
          \<and> (err, t) = timeoutWait
               (if PTY (conf p) \<or> has_Handler (conf p) then drained os else Some 0))
    \<and> timeoutWait None = (Some ''Timeout'', 10 * Second)
    \<and> (\<forall>d. timeoutWait (Some d)
            = (if d < 10 * Second then (None, d) else (Some ''Timeout'', 10 * Second)))"
proof -
  obtain err t where et:
    "timeoutWait (if PTY (conf p) \<or> has_Handler (conf p) then drained os else Some 0) = (err, t)"
    by (cases "timeoutWait (if PTY (conf p) \<or> has_Handler (conf p) then drained os else Some 0)")
  from assms et have st: "Start os p =
     (Returns None,
      p\<lparr>command := True, started := Some Closed, done' := Some Closed, Pid := child_pid os,
        ExitStatus := getExitStatus w\<rparr>,
      [ChildStarted, CloseStarted, WaitReturned w, CloseLineWriter, CloseDone,
       SetExitStatus (getExitStatus w), TimeoutWaitReturned err t])"
    by (rule Start_started)
  have "t \<le> 10 * Second"
    using timeoutWait_bound [of "if PTY (conf p) \<or> has_Handler (conf p) then drained os else Some 0"]
    by (simp add: et)
  then have "\<exists>err t. last (snd (snd (Start os p))) = TimeoutWaitReturned err t
          \<and> t \<le> 10 * Second
          \<and> (err, t) = timeoutWait
               (if PTY (conf p) \<or> has_Handler (conf p) then drained os else Some 0)"
    by (simp add: st et)
  moreover have "fst (Start os p) = Returns None" by (simp add: st)
  moreover have "timeoutWait None = (Some ''Timeout'', 10 * Second)"
    by (simp add: timeoutWait_def)
  moreover have "\<forall>d. timeoutWait (Some d)
            = (if d < 10 * Second then (None, d) else (Some ''Timeout'', 10 * Second))"
    by (simp add: timeoutWait_def)
  ultimately show ?thesis by blast
qed

theorem Start_drain_bounded_witness:
  "fst (Start \<lparr>start_error = None, child_pid = 42, wait_result = Some None, drained = None\<rparr>
          new_process) = Returns None
   \<and> last (snd (snd (Start \<lparr>start_error = None, child_pid = 42, wait_result = Some None,
                             drained = None\<rparr> new_process)))
       = TimeoutWaitReturned (Some ''Timeout'') (10 * Second)"
proof -
  let ?os = "\<lparr>start_error = None, child_pid = 42, wait_result = Some None, drained = None\<rparr>"
  have s: "startable new_process" by (simp add: startable_def new_process_def)
  from Start_drain_bounded [OF s, of ?os None]
  have r: "fst (Start ?os new_process) = Returns None"
    and "\<exists>err t. last (snd (snd (Start ?os new_process))) = TimeoutWaitReturned err t
          \<and> (err, t) = timeoutWait
               (if PTY (conf new_process) \<or> has_Handler (conf new_process)
                then drained ?os else Some 0)"
    by auto
  then obtain err t where l: "last (snd (snd (Start ?os new_process))) = TimeoutWaitReturned err t"
    and "(err, t) = timeoutWait (if PTY (conf new_process) \<or> has_Handler (conf new_process)
                then drained ?os else Some 0)"
    by blast
  then have "(err, t) = (Some ''Timeout'', 10 * Second)"
    by (simp add: new_process_def timeoutWait_def)
  with l r show ?thesis by simp
qed

subsection \<open>Plugin locations and plugin configuration\<close>












lemma kept_other: "c \<noteq> CHR ''-'' \<Longrightarrow> \<not> is_space c \<Longrightarrow> kept c = (c \<noteq> CHR ''_'')"
  by (simp add: kept_def)







text \<open>
  The segments are counted on the whole string: a name with a fragment that holds a \<open>/\<close>
  has two segments.
\<close>

lemma ResolvePluginLocation_fragment_slash:
  "ResolvePluginLocation linux ''docker#release/v1'' = Inr ''https://github.com/docker#release/v1''"
  by (simp add: ResolvePluginLocation_def locationSchemeRegex_MatchString_def resolve_url_def
      linux_def plain_url_Parse_def plain_url_String_def HasPrefix_def)

lemma CreatePlugin_example:
  "CreatePlugin linux ''https://github.com/buildkite-plugins/docker-compose#v1'' []
   = Inr \<lparr>Location = ''github.com/buildkite-plugins/docker-compose'', Version = ''v1'',
           Scheme' = ''https'', Authentication = [], Configuration = []\<rparr>"
  by (simp add: CreatePlugin_def linux_def plain_url_Parse_def HasPrefix_def)











subsection \<open>Collecting artifacts\<close>


lemma build_AbsolutePath:
  "build fs config path absolutePath globPath = Inr a \<Longrightarrow> AbsolutePath a = absolutePath"
  by (auto simp: build_def Let_def split: sum.splits)

lemma collected_add:
  assumes "collected st" and "seenPaths st p = None" and "AbsolutePath a = p"
  shows "collected (st\<lparr>seenPaths := (seenPaths st)(p \<mapsto> True), artifacts := artifacts st @ [a]\<rparr>)"
  using assms by (auto simp: collected_def dom_def)

lemma collected_seen:
  "collected st \<Longrightarrow> collected (st\<lparr>seenPaths := (seenPaths st)(p \<mapsto> True)\<rparr>)"
  by (auto simp: collected_def)

lemma collected_wd: "collected (st\<lparr>wd := d\<rparr>) = collected st"
  by (simp add: collected_def)

lemma walk_fn_collected:
  assumes "collected st" and "walk_fn fs X config literalPath st call = Inr st'"
  shows "collected st'"
proof -
  obtain p d err where call: "call = (p, d, err)" by (cases call)
  show ?thesis
  proof (cases "err = None \<and> seenPaths st p = None \<and> \<not> d")
    case False
    with assms call show ?thesis
      by (auto simp: walk_fn_def split: option.splits if_splits)
  next
    case True
    with assms(2) call obtain path a where
      b: "build fs config path p literalPath = Inr a"
      and st': "st' = st\<lparr>seenPaths := (seenPaths st)(p \<mapsto> True), artifacts := artifacts st @ [a]\<rparr>"
      by (auto simp: walk_fn_def Let_def split: sum.splits if_splits)
    from b have "AbsolutePath a = p" by (rule build_AbsolutePath)
    with assms(1) True show ?thesis unfolding st' by (intro collected_add) simp_all
  qed
qed

lemma walk_dir_collected:
  "collected st \<Longrightarrow> walk_dir fs X config literalPath calls st = Inr st' \<Longrightarrow> collected st'"
proof (induction calls arbitrary: st)
  case Nil
  then show ?case by simp
next
  case (Cons call calls)
  from Cons.prems(2) obtain st1 where 1: "walk_fn fs X config literalPath st call = Inr st1"
    and 2: "walk_dir fs X config literalPath calls st1 = Inr st'"
    by (auto split: sum.splits)
  from Cons.prems(1) 1 have "collected st1" by (rule walk_fn_collected)
  then show ?case using 2 by (rule Cons.IH)
qed

lemma collect_dirs_collected:
  "collected st \<Longrightarrow> collect_dirs fs X config prospects st = Inr st' \<Longrightarrow> collected st'"
proof (induction prospects arbitrary: st)
  case Nil
  then show ?case by simp
next
  case (Cons prospect prospects)
  show ?case
  proof (cases "\<exists>st1. walk_dir fs X config (TrimSpace prospect)
                        (WalkDir fs (projr (Abs fs (TrimSpace prospect)))) st = Inr st1
                      \<and> collect_dirs fs X config prospects st1 = Inr st'")
    case True
    then obtain st1 where 1: "walk_dir fs X config (TrimSpace prospect)
                        (WalkDir fs (projr (Abs fs (TrimSpace prospect)))) st = Inr st1"
      and 2: "collect_dirs fs X config prospects st1 = Inr st'" by blast
    from Cons.prems(1) 1 have "collected st1" by (rule walk_dir_collected)
    then show ?thesis using 2 by (rule Cons.IH)
  next
    case False
    with Cons.prems(2) have "collect_dirs fs X config prospects st = Inr st'"
      by (auto simp: Let_def split: sum.splits if_splits)
    with Cons.prems(1) show ?thesis by (rule Cons.IH)
  qed
qed

lemma collect_files_collected:
  "collected st \<Longrightarrow> collect_files fs G X config globPath files st = Inr st' \<Longrightarrow> collected st'"
proof (induction files arbitrary: st)
  case Nil
  then show ?case by simp
next
  case (Cons f files)
  from Cons.prems(2) obtain absolutePath where abs: "Abs fs f = Inr absolutePath"
    by (auto split: sum.splits)
  show ?case
  proof (cases "seenPaths st absolutePath = None")
    case False
    with Cons.prems(2) abs have "collect_files fs G X config globPath files st = Inr st'"
      by auto
    with Cons.prems(1) show ?thesis by (rule Cons.IH)
  next
    case unseen: True
    let ?st1 = "st\<lparr>seenPaths := (seenPaths st)(absolutePath \<mapsto> True)\<rparr>"
    have c1: "collected ?st1" using Cons.prems(1) by (rule collected_seen)
    show ?thesis
    proof (cases "Stat_IsDir fs absolutePath \<or> UploadSkipSymlinks config \<and> Lstat_IsSymlink fs absolutePath")
      case True
      with Cons.prems(2) abs unseen have "collect_files fs G X config globPath files ?st1 = Inr st'"
        by (auto simp: Let_def split: if_splits)
      with c1 show ?thesis by (rule Cons.IH)
    next
      case False
      let ?d = "if GOOS G = ''windows'' then VolumeName fs absolutePath @ ''/'' else ''/''"
      define st2 where "st2 = (if IsAbs fs globPath then ?st1\<lparr>wd := ?d\<rparr> else ?st1)"
      have c2: "collected st2" using c1 by (simp add: st2_def collected_wd)
      have s2: "seenPaths st2 = (seenPaths st)(absolutePath \<mapsto> True)"
        and a2: "artifacts st2 = artifacts st" by (simp_all add: st2_def)
      from Cons.prems(2) abs unseen False obtain path a where
        b: "build fs config path absolutePath globPath = Inr a"
        and rest: "collect_files fs G X config globPath files (st2\<lparr>artifacts := artifacts st2 @ [a]\<rparr>) = Inr st'"
        by (auto simp: Let_def st2_def split: sum.splits if_splits)
      from b have ap: "AbsolutePath a = absolutePath" by (rule build_AbsolutePath)
      have "collected (st2\<lparr>artifacts := artifacts st2 @ [a]\<rparr>)"
        using Cons.prems(1) unseen ap
        by (auto simp: collected_def s2 a2 dom_def)
      then show ?thesis using rest by (rule Cons.IH)
    qed
  qed
qed

lemma collect_globs_collected:
  "collected st \<Longrightarrow> collect_globs fs G X config prospects st = Inr st' \<Longrightarrow> collected st'"
proof (induction prospects arbitrary: st)
  case Nil
  then show ?case by simp
next
  case (Cons prospect prospects)
  show ?case
  proof (cases "\<exists>files st1. collect_files fs G X config (TrimSpace prospect) files st = Inr st1
                      \<and> collect_globs fs G X config prospects st1 = Inr st'")
    case True
    then obtain files st1 where 1: "collect_files fs G X config (TrimSpace prospect) files st = Inr st1"
      and 2: "collect_globs fs G X config prospects st1 = Inr st'" by blast
    from Cons.prems(1) 1 have "collected st1" by (rule collect_files_collected)
    then show ?thesis using 2 by (rule Cons.IH)
  next
    case False
    with Cons.prems(2) have "collect_globs fs G X config prospects st = Inr st'"
      by (auto simp: Let_def split: sum.splits if_splits option.splits prod.splits glob_error.splits)
    with Cons.prems(1) show ?thesis by (rule Cons.IH)
  qed
qed

text \<open>
  C4 (as amended). When \<^verbatim>\<open>Collect\<close> returns artifacts, no two of them have the same
  \<^verbatim>\<open>AbsolutePath\<close>: the path that \<^verbatim>\<open>filepath.WalkDir\<close> passed or that \<^verbatim>\<open>filepath.Abs\<close>
  made of the glob match, under which the file was entered in \<^verbatim>\<open>seenPaths\<close> before the
  artifact was built. This holds for the directory walk, for both glob libraries and for
  every setting of the options.
\<close>

theorem Collect_distinct:
  assumes "Collect' fs G X config = Inr arts"
  shows "distinct (map AbsolutePath arts)"
proof -
  from assms obtain dir st st' where
    1: "collect_dirs fs X config (Split (Paths config) ArtifactPathDelimiter)
          \<lparr>seenPaths = Map.empty, artifacts = [], wd = dir\<rparr> = Inr st"
    and 2: "collect_globs fs G X config (Split (Paths config) ArtifactPathDelimiter) st = Inr st'"
    and 3: "arts = artifacts st'"
    by (auto simp: Collect'_def Let_def split: sum.splits)
  have "collected \<lparr>seenPaths = Map.empty, artifacts = [], wd = dir\<rparr>"
    by (simp add: collected_def)
  then have "collected st" using 1 by (rule collect_dirs_collected)
  then have "collected st'" using 2 by (rule collect_globs_collected)
  then show ?thesis by (simp add: collected_def 3)
qed


lemmas collect_eval = Collect'_def example_fs_def example_conf_def no_experiments_def linux_def
  ArtifactPathDelimiter_def build_def ArtifactFallbackMimeType_def HasPrefix_def
  TrimSpace_def rune_width_def space_runes_def log_artifact_def Let_def

lemma Collect_example:
  "Collect' example_fs linux no_experiments example_conf
   = Inr [log_artifact ''out/app.log'' ''out/**/*.log'', log_artifact ''out/link.log'' ''out/**/*.log'',
          log_artifact ''out/sub/x.log'' ''out/**/*.log'']"
  by (simp add: collect_eval)

theorem Collect_distinct_witness:
  "Collect' example_fs linux no_experiments example_conf
   = Inr [log_artifact ''out/app.log'' ''out/**/*.log'', log_artifact ''out/link.log'' ''out/**/*.log'',
          log_artifact ''out/sub/x.log'' ''out/**/*.log'']
   \<and> distinct (map AbsolutePath
        [log_artifact ''out/app.log'' ''out/**/*.log'', log_artifact ''out/link.log'' ''out/**/*.log'',
         log_artifact ''out/sub/x.log'' ''out/**/*.log''])"
  using Collect_example Collect_distinct [OF Collect_example] by (rule conjI)

text \<open>
  C4 as stated fails: the glob matches the file \<open>out/app.log\<close> and the symbolic link
  \<open>out/link.log\<close> to it, both are collected (the second prospect, \<open>out/app.log\<close>, is the
  duplicate that is dropped), and after symbolic links are resolved the first two
  artifacts are the same file.
\<close>

theorem Collect_symlink_counterexample:
  "Collect' example_fs linux no_experiments example_conf
   = Inr [log_artifact ''out/app.log'' ''out/**/*.log'', log_artifact ''out/link.log'' ''out/**/*.log'',
          log_artifact ''out/sub/x.log'' ''out/**/*.log'']
   \<and> EvalSymlinks example_fs (AbsolutePath (log_artifact ''out/app.log'' ''out/**/*.log''))
       = EvalSymlinks example_fs (AbsolutePath (log_artifact ''out/link.log'' ''out/**/*.log''))
   \<and> \<not> distinct (map (\<lambda>a. EvalSymlinks example_fs (AbsolutePath a))
        [log_artifact ''out/app.log'' ''out/**/*.log'', log_artifact ''out/link.log'' ''out/**/*.log'',
         log_artifact ''out/sub/x.log'' ''out/**/*.log''])"
proof -
  have "EvalSymlinks example_fs (AbsolutePath (log_artifact ''out/app.log'' ''out/**/*.log''))
       = EvalSymlinks example_fs (AbsolutePath (log_artifact ''out/link.log'' ''out/**/*.log''))"
    by (simp add: example_fs_def log_artifact_def)
  then show ?thesis by (simp add: Collect_example)
qed

end
